theory Spec2Isabelle
  imports Complex_Main
begin

section \<open>The platformer's simulation step (src/index.tsx)\<close>

text \<open>
  The program is a single TypeScript file: a canvas, four constants, the global
  objects \<open>player\<close>, \<open>platforms\<close>, \<open>enemies\<close>, \<open>camera\<close> and \<open>keys\<close>, and the
  function \<open>update\<close> that advances them by one frame. JavaScript numbers are modelled
  as \<^typ>\<open>real\<close>: every constant of the program is an integer or a half, so for an
  integer canvas size all values the program computes are multiples of one half, which
  double-precision arithmetic represents exactly as long as they stay below \<open>2^52\<close>.

  The globals become one record \<open>State\<close> that \<open>update\<close> takes and returns; the canvas
  size, fixed at start-up, is a parameter, and \<open>keys\<close> is the input of a tick.
\<close>

subsection \<open>Data\<close>

record Canvas =
  width :: real
  height :: real

record Camera =
  x :: real
  y :: real

record GameObject =
  x :: real
  y :: real
  width :: real
  height :: real

record Player = GameObject +
  vx :: real
  vy :: real
  isJumping :: bool

type_synonym Platform = GameObject

record Enemy = GameObject +
  vx :: real
  startX :: real
  moveRange :: real

record Keys =
  left :: bool
  right :: bool
  up :: bool

record State =
  player :: Player
  platforms :: "Platform list"
  enemies :: "Enemy list"
  camera :: Camera

subsection \<open>Constants and the initial level\<close>

definition GRAVITY :: real where
  "GRAVITY = 1 / 2"

definition PLAYER_SPEED :: real where
  "PLAYER_SPEED = 4"

definition JUMP_FORCE :: real where
  "JUMP_FORCE = - 12"

definition WORLD_WIDTH :: real where
  "WORLD_WIDTH = 3000"

definition initialPlayer :: "Canvas \<Rightarrow> Player" where
  "initialPlayer cv =
     \<lparr>x = 100, y = Canvas.height cv - 200, width = 40, height = 60,
      Player.vx = 0, vy = 0, isJumping = True\<rparr>"

definition createPlatforms :: "Canvas \<Rightarrow> Platform list" where
  "createPlatforms cv =
    [\<lparr>x = 0, y = Canvas.height cv - 40, width = 800, height = 40\<rparr>,
     \<lparr>x = 900, y = Canvas.height cv - 40, width = WORLD_WIDTH - 900, height = 40\<rparr>,
     \<lparr>x = 200, y = Canvas.height cv - 150, width = 150, height = 20\<rparr>,
     \<lparr>x = 500, y = Canvas.height cv - 250, width = 150, height = 20\<rparr>,
     \<lparr>x = 800, y = Canvas.height cv - 350, width = 150, height = 20\<rparr>,
     \<lparr>x = 400, y = Canvas.height cv - 450, width = 150, height = 20\<rparr>,
     \<lparr>x = 1100, y = Canvas.height cv - 150, width = 200, height = 20\<rparr>,
     \<lparr>x = 1400, y = Canvas.height cv - 250, width = 200, height = 20\<rparr>,
     \<lparr>x = 1350, y = Canvas.height cv - 400, width = 150, height = 20\<rparr>,
     \<lparr>x = 1700, y = Canvas.height cv - 350, width = 300, height = 20\<rparr>,
     \<lparr>x = 2100, y = Canvas.height cv - 200, width = 100, height = 20\<rparr>,
     \<lparr>x = 2250, y = Canvas.height cv - 350, width = 100, height = 20\<rparr>,
     \<lparr>x = 2400, y = Canvas.height cv - 500, width = 100, height = 20\<rparr>,
     \<lparr>x = 2600, y = Canvas.height cv - 100, width = 300, height = 20\<rparr>]"

definition createEnemies :: "Canvas \<Rightarrow> Enemy list" where
  "createEnemies cv =
    [\<lparr>x = 500, y = Canvas.height cv - 290, width = 40, height = 40,
      Enemy.vx = 1, startX = 500, moveRange = 70\<rparr>,
     \<lparr>x = 1750, y = Canvas.height cv - 390, width = 40, height = 40,
      Enemy.vx = - 1, startX = 1700, moveRange = 220\<rparr>,
     \<lparr>x = 2650, y = Canvas.height cv - 140, width = 40, height = 40,
      Enemy.vx = 2, startX = 2600, moveRange = 220\<rparr>]"

text \<open>The state when \<open>init\<close> hands over to the game loop.\<close>

definition init :: "Canvas \<Rightarrow> State" where
  "init cv =
     \<lparr>player = initialPlayer cv, platforms = createPlatforms cv,
      enemies = createEnemies cv, camera = \<lparr>Camera.x = 0, Camera.y = 0\<rparr>\<rparr>"

definition noKeys :: Keys where
  "noKeys = \<lparr>left = False, right = False, up = False\<rparr>"

subsection \<open>resetPlayer\<close>

definition resetPlayer :: "Canvas \<Rightarrow> Player \<Rightarrow> Player" where
  "resetPlayer cv p =
     p\<lparr>x := 100, y := Canvas.height cv - 100, vy := 0, isJumping := True\<rparr>"

subsection \<open>update: player movement\<close>

definition horizontalInput :: "Keys \<Rightarrow> Player \<Rightarrow> Player" where
  "horizontalInput ks p =
     (if left ks then p\<lparr>Player.vx := - PLAYER_SPEED\<rparr>
      else if right ks then p\<lparr>Player.vx := PLAYER_SPEED\<rparr>
      else p\<lparr>Player.vx := 0\<rparr>)"

definition jumpInput :: "Keys \<Rightarrow> Player \<Rightarrow> Player" where
  "jumpInput ks p =
     (if up ks \<and> \<not> isJumping p then p\<lparr>vy := JUMP_FORCE, isJumping := True\<rparr> else p)"

definition integrate :: "Player \<Rightarrow> Player" where
  "integrate p =
     (let p1 = p\<lparr>x := x p + Player.vx p\<rparr>;
          p2 = p1\<lparr>y := y p1 + vy p1\<rparr>
      in p2\<lparr>vy := vy p2 + GRAVITY\<rparr>)"

definition playerMovement :: "Keys \<Rightarrow> Player \<Rightarrow> Player" where
  "playerMovement ks p = integrate (jumpInput ks (horizontalInput ks p))"

subsection \<open>update: platform collision\<close>

text \<open>The condition of the \<open>if\<close> inside the loop over the platforms.\<close>

definition lands :: "Player \<Rightarrow> Platform \<Rightarrow> bool" where
  "lands p pl \<longleftrightarrow>
     vy p \<ge> 0 \<and>
     x p + width p > x pl \<and>
     x p < x pl + width pl \<and>
     y p + height p > y pl \<and>
     y p + height p - vy p \<le> y pl"

text \<open>
  The loop: the first platform that catches the player snaps it and ends the loop
  (\<open>break\<close>); the second component is \<open>onGround\<close>.
\<close>

fun platformLoop :: "Player \<Rightarrow> Platform list \<Rightarrow> Player \<times> bool" where
  "platformLoop p [] = (p, False)"
| "platformLoop p (pl # pls) =
     (if lands p pl then (p\<lparr>y := y pl - height p, vy := 0\<rparr>, True)
      else platformLoop p pls)"

definition platformCollision :: "Platform list \<Rightarrow> Player \<Rightarrow> Player" where
  "platformCollision pls p =
     (case platformLoop p pls of (p1, onGround) \<Rightarrow> p1\<lparr>isJumping := \<not> onGround\<rparr>)"

subsection \<open>update: enemies\<close>

definition moveEnemy :: "Enemy \<Rightarrow> Enemy" where
  "moveEnemy e =
     (let e1 = e\<lparr>x := x e + Enemy.vx e\<rparr>
      in if x e1 < startX e1 \<or> x e1 + width e1 > startX e1 + moveRange e1
         then e1\<lparr>Enemy.vx := Enemy.vx e1 * (- 1)\<rparr> else e1)"

definition collides :: "Player \<Rightarrow> Enemy \<Rightarrow> bool" where
  "collides p e \<longleftrightarrow>
     x p < x e + width e \<and>
     x p + width p > x e \<and>
     y p < y e + height e \<and>
     y p + height p > y e"

definition stomps :: "Player \<Rightarrow> Enemy \<Rightarrow> bool" where
  "stomps p e \<longleftrightarrow> vy p > 0 \<and> y p + height p - vy p \<le> y e"

text \<open>
  The body of the loop over the enemies, for the enemy at the current index: the
  player as it is now, and the enemy moved, or \<open>None\<close> when \<open>splice\<close> removed it.
\<close>

definition enemyStep :: "Canvas \<Rightarrow> Player \<Rightarrow> Enemy \<Rightarrow> Player \<times> Enemy option" where
  "enemyStep cv p e =
     (let e1 = moveEnemy e
      in if collides p e1
         then (if stomps p e1 then (p\<lparr>vy := JUMP_FORCE / 2\<rparr>, None)
               else (resetPlayer cv p, Some e1))
         else (p, Some e1))"

text \<open>
  The loop \<open>for (let i = enemies.length - 1; i >= 0; i--)\<close>. The first argument is
  \<open>i + 1\<close>, the number of indices still to visit; the enemy at index \<open>i\<close> is moved
  in place, or removed by \<open>splice(i, 1)\<close>, and the loop goes on at \<open>i - 1\<close>. The
  index is always inside the array: a removal shortens it by one, at an index above
  the next one.
\<close>

fun enemyLoop :: "Canvas \<Rightarrow> nat \<Rightarrow> Player \<Rightarrow> Enemy list \<Rightarrow> Player \<times> Enemy list" where
  "enemyLoop cv 0 p es = (p, es)"
| "enemyLoop cv (Suc i) p es =
     (case enemyStep cv p (es ! i) of
        (p1, None) \<Rightarrow> enemyLoop cv i p1 (take i es @ drop (Suc i) es)
      | (p1, Some e1) \<Rightarrow> enemyLoop cv i p1 (es[i := e1]))"

subsection \<open>update: world boundaries and camera\<close>

definition worldBoundaries :: "Player \<Rightarrow> Player" where
  "worldBoundaries p = (if x p < 0 then p\<lparr>x := 0\<rparr> else p)"

definition fallOut :: "Canvas \<Rightarrow> Player \<Rightarrow> Player" where
  "fallOut cv p = (if y p > Canvas.height cv then resetPlayer cv p else p)"

definition cameraUpdate :: "Canvas \<Rightarrow> Player \<Rightarrow> Camera \<Rightarrow> Camera" where
  "cameraUpdate cv p cam =
     (let c1 = cam\<lparr>Camera.x := x p - Canvas.width cv / 2 + width p / 2\<rparr>;
          c2 = (if Camera.x c1 < 0 then c1\<lparr>Camera.x := 0\<rparr> else c1)
      in if Camera.x c2 + Canvas.width cv > WORLD_WIDTH
         then c2\<lparr>Camera.x := WORLD_WIDTH - Canvas.width cv\<rparr> else c2)"

subsection \<open>update\<close>

definition update :: "Canvas \<Rightarrow> Keys \<Rightarrow> State \<Rightarrow> State" where
  "update cv ks s =
     (let p1 = playerMovement ks (player s);
          p2 = platformCollision (platforms s) p1
      in case enemyLoop cv (length (enemies s)) p2 (enemies s) of (p3, es) \<Rightarrow>
           (let p4 = fallOut cv (worldBoundaries p3)
            in s\<lparr>player := p4, enemies := es, camera := cameraUpdate cv p4 (camera s)\<rparr>))"

text \<open>The game loop: one \<open>update\<close> per frame, each with the keys held at that frame.\<close>

fun run :: "Canvas \<Rightarrow> State \<Rightarrow> Keys list \<Rightarrow> State" where
  "run cv s [] = s"
| "run cv s (ks # kss) = run cv (update cv ks s) kss"


subsection \<open>Definitions used to state the properties\<close>

text \<open>
  The same loop by recursion on the list, for the proofs: the enemies behind the head
  are handled before the head, with the player they leave behind.
\<close>

fun enemyPass :: "Canvas \<Rightarrow> Player \<Rightarrow> Enemy list \<Rightarrow> Player \<times> Enemy list" where
  "enemyPass cv p [] = (p, [])"
| "enemyPass cv p (e # es) =
     (case enemyPass cv p es of (p1, es1) \<Rightarrow>
        (case enemyStep cv p1 e of
           (p2, None) \<Rightarrow> (p2, es1)
         | (p2, Some e1) \<Rightarrow> (p2, e1 # es1)))"

text \<open>
  Clamping a value to an interval, as the specification words the camera offset.
\<close>

definition clamp :: "real \<Rightarrow> real \<Rightarrow> real \<Rightarrow> real" where
  "clamp lo hi v = max lo (min hi v)"

text \<open>A canvas of 1000 by 600 pixels, for the concrete runs below.\<close>

definition canvas0 :: Canvas where
  "canvas0 = \<lparr>Canvas.width = 1000, Canvas.height = 600\<rparr>"

text \<open>
  The canvas of a window of 3840 by 2160 pixels, nine tenths of each side: wider than
  the world.
\<close>

definition wideCanvas :: Canvas where
  "wideCanvas = \<lparr>Canvas.width = 3456, Canvas.height = 1944\<rparr>"

text \<open>The initial level with the player over the gap in the ground, below the canvas.\<close>

definition fallenState :: State where
  "fallenState = (init canvas0)\<lparr>player := (initialPlayer canvas0)\<lparr>x := 840, y := 650\<rparr>\<rparr>"

text \<open>
  What each enemy of the level satisfies at every tick: it is narrower than its range
  by at least one step, at most one step outside the range, and moving back in when
  it is outside.
\<close>

definition patrolInv :: "Enemy \<Rightarrow> bool" where
  "patrolInv e \<longleftrightarrow>
     0 \<le> width e \<and>
     \<bar>Enemy.vx e\<bar> \<le> moveRange e - width e \<and>
     startX e - \<bar>Enemy.vx e\<bar> \<le> x e \<and>
     x e + width e \<le> startX e + moveRange e + \<bar>Enemy.vx e\<bar> \<and>
     (x e < startX e \<longrightarrow> 0 < Enemy.vx e) \<and>
     (startX e + moveRange e < x e + width e \<longrightarrow> Enemy.vx e < 0)"

text \<open>
  The state of the initial level after 21 frames with no key held: the player has
  fallen from its spawn point onto the left ground platform.
\<close>

definition landedState :: State where
  "landedState = run canvas0 (init canvas0) (replicate 21 noKeys)"

definition jumpKeys :: Keys where
  "jumpKeys = \<lparr>left = False, right = False, up = True\<rparr>"

text \<open>
  The player stands on the platform \<open>pl\<close>: its bottom edge is the platform's top and
  it overlaps the platform horizontally. \<open>air\<close> tells the two phases of standing
  apart: \<open>vy = 0\<close> and grounded, or \<open>vy = GRAVITY\<close> and airborne. Nothing else
  interferes: the player is inside the world and above the canvas's bottom edge, no
  platform under the player has its top within \<open>GRAVITY\<close> of that of \<open>pl\<close> unless at
  the same height, and every enemy is above or below the player.
\<close>

definition resting :: "Canvas \<Rightarrow> Platform \<Rightarrow> bool \<Rightarrow> State \<Rightarrow> bool" where
  "resting cv pl air s \<longleftrightarrow>
     vy (player s) = (if air then GRAVITY else 0) \<and>
     isJumping (player s) = air \<and>
     pl \<in> set (platforms s) \<and>
     y (player s) + height (player s) = y pl \<and>
     x pl < x (player s) + width (player s) \<and>
     x (player s) < x pl + width pl \<and>
     0 \<le> x (player s) \<and>
     y (player s) + GRAVITY \<le> Canvas.height cv \<and>
     (\<forall>q \<in> set (platforms s).
        x q < x (player s) + width (player s) \<and> x (player s) < x q + width q \<longrightarrow>
        y q < y pl - GRAVITY \<or> y q = y pl \<or> y pl + GRAVITY \<le> y q) \<and>
     (\<forall>e \<in> set (enemies s).
        y e + height e \<le> y (player s) \<or> y (player s) + height (player s) + GRAVITY \<le> y e)"

section \<open>Properties\<close>

subsection \<open>Fields that a step leaves alone\<close>

lemma resetPlayer_fields:
  "x (resetPlayer cv p) = 100" "y (resetPlayer cv p) = Canvas.height cv - 100"
  "vy (resetPlayer cv p) = 0" "isJumping (resetPlayer cv p)"
  "width (resetPlayer cv p) = width p" "height (resetPlayer cv p) = height p"
  "Player.vx (resetPlayer cv p) = Player.vx p"
  by (simp_all add: resetPlayer_def)

lemma moveEnemy_fields:
  "x (moveEnemy e) = x e + Enemy.vx e" "y (moveEnemy e) = y e"
  "width (moveEnemy e) = width e" "height (moveEnemy e) = height e"
  "startX (moveEnemy e) = startX e" "moveRange (moveEnemy e) = moveRange e"
  by (simp_all add: moveEnemy_def Let_def)

lemma moveEnemy_vx:
  "Enemy.vx (moveEnemy e) =
     (if x e + Enemy.vx e < startX e \<or> startX e + moveRange e < x e + Enemy.vx e + width e
      then - Enemy.vx e else Enemy.vx e)"
  by (simp add: moveEnemy_def Let_def)

lemma worldBoundaries_fields:
  "y (worldBoundaries p) = y p" "vy (worldBoundaries p) = vy p"
  "isJumping (worldBoundaries p) = isJumping p"
  "width (worldBoundaries p) = width p" "height (worldBoundaries p) = height p"
  by (simp_all add: worldBoundaries_def)

lemma enemyStep_cases:
  "enemyStep cv p e =
     (if collides p (moveEnemy e)
      then (if stomps p (moveEnemy e) then (p\<lparr>vy := JUMP_FORCE / 2\<rparr>, None)
            else (resetPlayer cv p, Some (moveEnemy e)))
      else (p, Some (moveEnemy e)))"
  by (simp add: enemyStep_def Let_def)

subsection \<open>The loop over the enemies\<close>

text \<open>
  The loop over the indices computes what the recursion on the list computes: with
  the first \<open>i\<close> enemies still to visit, it handles them from the last to the first
  and leaves the rest of the array as it is.
\<close>

lemma enemyPass_append:
  "enemyPass cv p (pre @ post) =
     (case enemyPass cv p post of (p1, post1) \<Rightarrow>
        (case enemyPass cv p1 pre of (p2, pre1) \<Rightarrow> (p2, pre1 @ post1)))"
  by (induction pre) (auto split: prod.splits option.splits)

lemma enemyLoop_prefix:
  "length pre = i \<Longrightarrow>
   enemyLoop cv i p (pre @ post) =
     (case enemyPass cv p pre of (p1, pre1) \<Rightarrow> (p1, pre1 @ post))"
proof (induction i arbitrary: pre p post)
  case 0
  then show ?case by simp
next
  case (Suc i)
  then obtain pre0 e where pre: "pre = pre0 @ [e]" and len: "length pre0 = i"
    by (metis length_Suc_conv_rev)
  obtain p1 r where st: "enemyStep cv p e = (p1, r)"
    by (cases "enemyStep cv p e")
  have nth: "(pre @ post) ! i = e"
    by (simp add: pre len [symmetric])
  have cut: "take i (pre @ post) @ drop (Suc i) (pre @ post) = pre0 @ post"
    by (simp add: pre len [symmetric])
  have upd: "(pre @ post)[i := e1] = pre0 @ e1 # post" for e1
    by (simp add: pre len [symmetric])
  show ?case
  proof (cases r)
    case None
    with st nth cut have "enemyLoop cv (Suc i) p (pre @ post) = enemyLoop cv i p1 (pre0 @ post)"
      by simp
    also have "\<dots> = (case enemyPass cv p1 pre0 of (p2, pre1) \<Rightarrow> (p2, pre1 @ post))"
      by (rule Suc.IH [OF len])
    finally show ?thesis
      using st None by (simp add: pre enemyPass_append split: prod.splits)
  next
    case (Some e1)
    with st nth upd have "enemyLoop cv (Suc i) p (pre @ post) = enemyLoop cv i p1 (pre0 @ e1 # post)"
      by simp
    also have "\<dots> = (case enemyPass cv p1 pre0 of (p2, pre1) \<Rightarrow> (p2, pre1 @ e1 # post))"
      by (rule Suc.IH [OF len])
    finally show ?thesis
      using st Some by (simp add: pre enemyPass_append split: prod.splits)
  qed
qed

lemma enemyLoop_enemyPass: "enemyLoop cv (length es) p es = enemyPass cv p es"
  using enemyLoop_prefix [of es "length es" cv p "[]"] by (simp split: prod.splits)

lemma fst_enemyPass_Cons:
  "fst (enemyPass cv p (e # es)) = fst (enemyStep cv (fst (enemyPass cv p es)) e)"
  by (simp split: prod.splits option.splits)

lemma snd_enemyPass_Cons:
  "snd (enemyPass cv p (e # es)) =
     (case snd (enemyStep cv (fst (enemyPass cv p es)) e) of
        None \<Rightarrow> snd (enemyPass cv p es)
      | Some e1 \<Rightarrow> e1 # snd (enemyPass cv p es))"
  by (simp split: prod.splits option.splits)

lemma enemyPass_no_collision:
  "\<forall>e \<in> set es. \<not> collides p (moveEnemy e) \<Longrightarrow> enemyPass cv p es = (p, map moveEnemy es)"
  by (induction es) (simp_all add: enemyStep_cases)

lemma enemyPass_subset: "set (snd (enemyPass cv p es)) \<subseteq> moveEnemy ` set es"
proof (induction es)
  case Nil
  then show ?case by simp
next
  case (Cons e es)
  have "snd (enemyStep cv q e) = None \<or> snd (enemyStep cv q e) = Some (moveEnemy e)" for q
    by (simp add: enemyStep_cases)
  from this [of "fst (enemyPass cv p es)"] Cons show ?case
    unfolding snd_enemyPass_Cons by (auto split: option.splits)
qed

lemma enemyStep_isJumping: "isJumping p \<Longrightarrow> isJumping (fst (enemyStep cv p e))"
  by (simp add: enemyStep_cases resetPlayer_fields)

lemma enemyPass_isJumping: "isJumping p \<Longrightarrow> isJumping (fst (enemyPass cv p es))"
proof (induction es)
  case Nil
  then show ?case by simp
next
  case (Cons e es)
  then show ?case
    by (simp only: fst_enemyPass_Cons enemyStep_isJumping)
qed

subsection \<open>The loop over the platforms\<close>

lemma platformLoop_none:
  "\<forall>pl \<in> set pls. \<not> lands p pl \<Longrightarrow> platformLoop p pls = (p, False)"
  by (induction pls) simp_all

lemma platformLoop_rising: "vy p < 0 \<Longrightarrow> platformLoop p pls = (p, False)"
  by (induction pls) (simp_all add: lands_def)

lemma platformLoop_first:
  assumes "pl \<in> set pls" "lands p pl" "\<forall>q \<in> set pls. lands p q \<longrightarrow> y q = c"
  shows "platformLoop p pls = (p\<lparr>y := c - height p, vy := 0\<rparr>, True)"
  using assms by (induction pls) auto

subsection \<open>Projections of one tick\<close>

lemma player_update:
  "player (update cv ks s) =
     fallOut cv (worldBoundaries (fst (enemyPass cv
       (platformCollision (platforms s) (playerMovement ks (player s))) (enemies s))))"
  by (simp add: update_def Let_def enemyLoop_enemyPass split: prod.split)

lemma enemies_update:
  "enemies (update cv ks s) =
     snd (enemyPass cv (platformCollision (platforms s) (playerMovement ks (player s))) (enemies s))"
  by (simp add: update_def Let_def enemyLoop_enemyPass split: prod.split)

lemma platforms_update: "platforms (update cv ks s) = platforms s"
  by (simp add: update_def Let_def split: prod.split)

lemma camera_update:
  "camera (update cv ks s) = cameraUpdate cv (player (update cv ks s)) (camera s)"
  by (simp add: update_def Let_def split: prod.split)

lemma cameraUpdate_x:
  "Camera.x (cameraUpdate cv p cam) =
     min (WORLD_WIDTH - Canvas.width cv) (max 0 (x p - Canvas.width cv / 2 + width p / 2))"
  by (simp add: cameraUpdate_def Let_def min_def max_def)

lemma run_snoc: "run cv s (kss @ [ks]) = update cv ks (run cv s kss)"
  by (induction kss arbitrary: s) simp_all

lemma replicate_Suc_snoc: "replicate (Suc n) a = replicate n a @ [a]"
  by (induction n) simp_all

subsection \<open>Standing on a platform\<close>

text \<open>
  With no key held, a player standing on a platform goes through two ticks in turn:
  from \<open>vy = 0\<close> the platform does not catch it, since its bottom edge is not below the
  platform's top; from \<open>vy = GRAVITY\<close> it has moved down by \<open>GRAVITY\<close> and is caught.
\<close>

lemma movement_noKeys:
  "playerMovement noKeys p =
     p\<lparr>Player.vx := 0, x := x p, y := y p + vy p, vy := vy p + GRAVITY\<rparr>"
  by (simp add: playerMovement_def integrate_def jumpInput_def horizontalInput_def
      noKeys_def Let_def)

lemma no_collision_apart:
  assumes "\<forall>e \<in> set es. y e + height e \<le> y p \<or> y p + height p \<le> y e"
  shows "enemyPass cv p es = (p, map moveEnemy es)"
  by (rule enemyPass_no_collision) (use assms in \<open>auto simp: collides_def moveEnemy_fields\<close>)

lemma resting_ground_tick:
  assumes "resting cv pl False s"
  shows "player (update cv noKeys s) = (player s)\<lparr>Player.vx := 0, vy := GRAVITY, isJumping := True\<rparr>"
    and "enemies (update cv noKeys s) = map moveEnemy (enemies s)"
proof -
  let ?p = "player s"
  let ?m = "?p\<lparr>Player.vx := 0, vy := GRAVITY\<rparr>"
  from assms have v: "vy ?p = 0"
    by (simp add: resting_def)
  then have m: "playerMovement noKeys ?p = ?m"
    by (simp add: movement_noKeys)
  have "\<forall>q \<in> set (platforms s). \<not> lands ?m q"
    using assms unfolding resting_def lands_def GRAVITY_def by (auto simp: not_less)
  then have "platformLoop ?m (platforms s) = (?m, False)"
    by (rule platformLoop_none)
  then have c: "platformCollision (platforms s) (playerMovement noKeys ?p) = ?m\<lparr>isJumping := True\<rparr>"
    by (simp add: m platformCollision_def)
  have "\<forall>e \<in> set (enemies s). y e + height e \<le> y (?m\<lparr>isJumping := True\<rparr>)
      \<or> y (?m\<lparr>isJumping := True\<rparr>) + height (?m\<lparr>isJumping := True\<rparr>) \<le> y e"
    using assms unfolding resting_def GRAVITY_def by auto
  then have l: "enemyPass cv (?m\<lparr>isJumping := True\<rparr>) (enemies s) =
      (?m\<lparr>isJumping := True\<rparr>, map moveEnemy (enemies s))"
    by (rule no_collision_apart)
  have "0 \<le> x ?p" "y ?p \<le> Canvas.height cv"
    using assms unfolding resting_def GRAVITY_def by auto
  then show "player (update cv noKeys s) = ?p\<lparr>Player.vx := 0, vy := GRAVITY, isJumping := True\<rparr>"
    by (simp add: player_update c l worldBoundaries_def fallOut_def)
  show "enemies (update cv noKeys s) = map moveEnemy (enemies s)"
    by (simp add: enemies_update c l)
qed

lemma resting_air_tick:
  assumes "resting cv pl True s"
  shows "player (update cv noKeys s) = (player s)\<lparr>Player.vx := 0, vy := 0, isJumping := False\<rparr>"
    and "enemies (update cv noKeys s) = map moveEnemy (enemies s)"
proof -
  let ?p = "player s"
  let ?m = "?p\<lparr>Player.vx := 0, y := y ?p + GRAVITY, vy := GRAVITY + GRAVITY\<rparr>"
  let ?r = "?p\<lparr>Player.vx := 0, vy := 0, isJumping := False\<rparr>"
  from assms have v: "vy ?p = GRAVITY"
    by (simp add: resting_def)
  then have m: "playerMovement noKeys ?p = ?m"
    by (simp add: movement_noKeys)
  have "pl \<in> set (platforms s)"
    using assms by (simp add: resting_def)
  moreover have "lands ?m pl"
    using assms unfolding resting_def lands_def GRAVITY_def by simp
  moreover have "\<forall>q \<in> set (platforms s). lands ?m q \<longrightarrow> y q = y pl"
    using assms unfolding resting_def lands_def GRAVITY_def by auto
  ultimately have "platformLoop ?m (platforms s) = (?m\<lparr>y := y pl - height ?m, vy := 0\<rparr>, True)"
    by (rule platformLoop_first)
  moreover have "y pl - height ?p = y ?p"
    using assms unfolding resting_def by simp
  ultimately have c: "platformCollision (platforms s) (playerMovement noKeys ?p) = ?r"
    by (simp add: m platformCollision_def)
  have "\<forall>e \<in> set (enemies s). y e + height e \<le> y ?r \<or> y ?r + height ?r \<le> y e"
    using assms unfolding resting_def GRAVITY_def by auto
  then have l: "enemyPass cv ?r (enemies s) = (?r, map moveEnemy (enemies s))"
    by (rule no_collision_apart)
  have "0 \<le> x ?p" "y ?p \<le> Canvas.height cv"
    using assms unfolding resting_def GRAVITY_def by auto
  then show "player (update cv noKeys s) = ?r"
    by (simp add: player_update c l worldBoundaries_def fallOut_def)
  show "enemies (update cv noKeys s) = map moveEnemy (enemies s)"
    by (simp add: enemies_update c l)
qed

lemma resting_tick:
  assumes "resting cv pl air s"
  shows "resting cv pl (\<not> air) (update cv noKeys s)
    \<and> x (player (update cv noKeys s)) = x (player s)
    \<and> y (player (update cv noKeys s)) = y (player s)"
proof (cases air)
  case True
  with assms have r: "resting cv pl True s" by simp
  show ?thesis
    using assms True
    unfolding resting_def resting_air_tick [OF r] platforms_update
    by (auto simp: moveEnemy_fields)
next
  case False
  with assms have r: "resting cv pl False s" by simp
  show ?thesis
    using assms False
    unfolding resting_def resting_ground_tick [OF r] platforms_update
    by (auto simp: moveEnemy_fields)
qed

lemma resting_run:
  assumes "resting cv pl False s"
  shows "resting cv pl (odd n) (run cv s (replicate n noKeys))
    \<and> x (player (run cv s (replicate n noKeys))) = x (player s)
    \<and> y (player (run cv s (replicate n noKeys))) = y (player s)"
proof (induction n)
  case 0
  with assms show ?case by simp
next
  case (Suc n)
  from resting_tick [of cv pl "odd n" "run cv s (replicate n noKeys)"] Suc
  show ?case
    by (simp only: replicate_Suc_snoc run_snoc) simp
qed

text \<open>
  The state 21 frames after the start, computed, and the player standing in it.
\<close>

lemma landedState_eq:
  "landedState =
     \<lparr>player = \<lparr>x = 100, y = 500, width = 40, height = 60,
                 Player.vx = 0, vy = 0, isJumping = False\<rparr>,
      platforms = createPlatforms canvas0,
      enemies =
        [\<lparr>x = 521, y = 310, width = 40, height = 40,
          Enemy.vx = 1, startX = 500, moveRange = 70\<rparr>,
         \<lparr>x = 1729, y = 210, width = 40, height = 40,
          Enemy.vx = - 1, startX = 1700, moveRange = 220\<rparr>,
         \<lparr>x = 2692, y = 460, width = 40, height = 40,
          Enemy.vx = 2, startX = 2600, moveRange = 220\<rparr>],
      camera = \<lparr>Camera.x = 0, Camera.y = 0\<rparr>\<rparr>"
  by code_simp

lemma landedState_resting: "resting canvas0 (hd (createPlatforms canvas0)) False landedState"
  by (simp add: resting_def landedState_eq)
    (simp add: createPlatforms_def canvas0_def GRAVITY_def WORLD_WIDTH_def)

subsection \<open>C1: at rest on the ground\<close>

text \<open>
  C1 says that a player at rest on a ground platform, with no input, keeps its
  position, \<open>vy = 0\<close> and \<open>isJumping = false\<close> for each of the next 10 ticks. In
  \<open>landedState\<close>, reached from the initial state by 21 frames with no key held, the player
  is at rest on the left ground platform, its bottom edge on the platform's top; one
  more frame with no key held leaves it with \<open>vy = GRAVITY = 1/2\<close> and \<open>isJumping = true\<close>.
\<close>

theorem rest_is_not_stable:
  "vy (player landedState) = 0
   \<and> \<not> isJumping (player landedState)
   \<and> y (player landedState) + height (player landedState) = y (hd (platforms landedState))
   \<and> vy (player (update canvas0 noKeys landedState)) = 1 / 2
   \<and> isJumping (player (update canvas0 noKeys landedState))"
  by (simp add: resting_ground_tick(1) [OF landedState_resting] GRAVITY_def)
    (simp add: landedState_eq createPlatforms_def canvas0_def)

subsection \<open>C2: stomp or hit\<close>

text \<open>
  C2: when the loop reaches an enemy \<open>e\<close> whose box, after its move, overlaps the
  player's (the enemies \<open>post\<close> behind it have been handled and have left the player
  \<open>p1\<close>), then either \<open>vy > 0\<close> and \<open>y + height - vy\<close> is at or above the enemy's top, and
  the enemy is removed and \<open>vy\<close> set to \<open>JUMP_FORCE / 2\<close>; or the player is reset
  (\<open>x = 100\<close>) and the moved enemy stays in the collection. The loop goes on over the
  enemies \<open>pre\<close> in front with that player.
\<close>

theorem stomp_or_hit:
  assumes "enemyLoop cv (length post) p post = (p1, post1)"
    and "collides p1 (moveEnemy e)"
  shows "enemyLoop cv (length (pre @ e # post)) p (pre @ e # post) =
           (if vy p1 > 0 \<and> y p1 + height p1 - vy p1 \<le> y e
            then (case enemyLoop cv (length pre) (p1\<lparr>vy := JUMP_FORCE / 2\<rparr>) pre of
                    (p2, pre1) \<Rightarrow> (p2, pre1 @ post1))
            else (case enemyLoop cv (length pre) (resetPlayer cv p1) pre of
                    (p2, pre1) \<Rightarrow> (p2, pre1 @ moveEnemy e # post1)))
         \<and> x (resetPlayer cv p1) = 100"
  using assms unfolding enemyLoop_enemyPass
  by (simp add: enemyPass_append [of cv p pre "e # post"] enemyStep_cases stomps_def
      moveEnemy_fields resetPlayer_fields split: prod.splits)

text \<open>
  The player falling at speed 10 onto the first enemy of the level: the enemy is
  removed and \<open>vy\<close> becomes -6.
\<close>

theorem stomp_or_hit_witness:
  "enemyLoop canvas0 (length (createEnemies canvas0))
     ((initialPlayer canvas0)\<lparr>x := 500, y := 255, vy := 10\<rparr>) (createEnemies canvas0) =
   ((initialPlayer canvas0)\<lparr>x := 500, y := 255, vy := - 6\<rparr>,
    map moveEnemy (tl (createEnemies canvas0)))"
proof -
  let ?p = "(initialPlayer canvas0)\<lparr>x := 500, y := 255, vy := 10\<rparr>"
  have "enemyPass canvas0 ?p (tl (createEnemies canvas0)) =
      (?p, map moveEnemy (tl (createEnemies canvas0)))"
    by (rule enemyPass_no_collision)
      (simp add: createEnemies_def collides_def moveEnemy_def initialPlayer_def canvas0_def Let_def)
  then have l: "enemyLoop canvas0 (length (tl (createEnemies canvas0))) ?p
      (tl (createEnemies canvas0)) = (?p, map moveEnemy (tl (createEnemies canvas0)))"
    by (simp only: enemyLoop_enemyPass)
  have c: "collides ?p (moveEnemy (hd (createEnemies canvas0)))"
    by (simp add: collides_def moveEnemy_def createEnemies_def initialPlayer_def
        canvas0_def Let_def)
  have e: "createEnemies canvas0 = [] @ hd (createEnemies canvas0) # tl (createEnemies canvas0)"
    by (simp add: createEnemies_def)
  have v: "vy ?p > 0 \<and> y ?p + height ?p - vy ?p \<le> y (hd (createEnemies canvas0))"
    by (simp add: createEnemies_def initialPlayer_def canvas0_def)
  have "enemyLoop canvas0 (length ([] @ hd (createEnemies canvas0) # tl (createEnemies canvas0)))
      ?p ([] @ hd (createEnemies canvas0) # tl (createEnemies canvas0)) =
      (?p\<lparr>vy := JUMP_FORCE / 2\<rparr>, map moveEnemy (tl (createEnemies canvas0)))"
    using stomp_or_hit [OF l c, of "[]"] v by simp
  then show ?thesis
    unfolding e [symmetric] by (simp add: JUMP_FORCE_def)
qed

subsection \<open>C3: an enemy turns around\<close>

lemma patrol_steps:
  assumes "startX e = 500" "moveRange e = 70" "Enemy.vx e = 1" "x e = 500" "width e = 40"
  shows "n \<le> 30 \<Longrightarrow> (moveEnemy ^^ n) e = e\<lparr>x := 500 + real n\<rparr>"
proof (induction n)
  case 0
  then show ?case using assms by simp
next
  case (Suc n)
  then have "(moveEnemy ^^ n) e = e\<lparr>x := 500 + real n\<rparr>" by simp
  moreover have "moveEnemy (e\<lparr>x := 500 + real n\<rparr>) = e\<lparr>x := 500 + real (Suc n)\<rparr>"
    using assms Suc.prems by (simp add: moveEnemy_def Let_def add.commute)
  ultimately show ?case by simp
qed

text \<open>
  C3 as stated fails: the first enemy of the level, after 30 moves, has its right edge
  at 570, which is \<open>startX + moveRange\<close> (after 29 moves it was still below), and its
  \<open>vx\<close> is still 1.
\<close>

theorem enemy_reversal_counterexample:
  "x ((moveEnemy ^^ 29) (hd (createEnemies canvas0)))
     + width ((moveEnemy ^^ 29) (hd (createEnemies canvas0))) < 570
   \<and> x ((moveEnemy ^^ 30) (hd (createEnemies canvas0)))
     + width ((moveEnemy ^^ 30) (hd (createEnemies canvas0))) \<ge> 570
   \<and> Enemy.vx ((moveEnemy ^^ 30) (hd (createEnemies canvas0))) = 1"
proof -
  have h: "startX (hd (createEnemies canvas0)) = 500" "moveRange (hd (createEnemies canvas0)) = 70"
    "Enemy.vx (hd (createEnemies canvas0)) = 1" "x (hd (createEnemies canvas0)) = 500"
    "width (hd (createEnemies canvas0)) = 40"
    by (simp_all add: createEnemies_def)
  show ?thesis
    using patrol_steps [OF h, of 29] patrol_steps [OF h, of 30] h by simp
qed

text \<open>
  C3, amended: an enemy turns around when, after its move, its right edge is strictly
  beyond \<open>startX + moveRange\<close> or its position strictly below \<open>startX\<close>. An enemy with
  \<open>startX = 500\<close>, \<open>moveRange = 70\<close>, \<open>vx = 1\<close> and width 40 that starts at \<open>x = 500\<close>
  advances by 1 with \<open>vx = 1\<close> for 30 ticks, and at the 31st tick, at \<open>x = 531\<close> with
  \<open>x + width = 571\<close>, \<open>vx\<close> becomes -1.
\<close>

theorem enemy_reversal:
  "Enemy.vx (moveEnemy e) =
     (if x e + Enemy.vx e < startX e \<or> startX e + moveRange e < x e + Enemy.vx e + width e
      then - Enemy.vx e else Enemy.vx e)
   \<and> x (moveEnemy e) = x e + Enemy.vx e
   \<and> (startX e = 500 \<and> moveRange e = 70 \<and> Enemy.vx e = 1 \<and> x e = 500 \<and> width e = 40 \<longrightarrow>
        (\<forall>n \<le> 30. x ((moveEnemy ^^ n) e) = 500 + real n \<and> Enemy.vx ((moveEnemy ^^ n) e) = 1)
        \<and> x ((moveEnemy ^^ 31) e) = 531 \<and> Enemy.vx ((moveEnemy ^^ 31) e) = - 1)"
proof -
  have "(\<forall>n \<le> 30. x ((moveEnemy ^^ n) e) = 500 + real n \<and> Enemy.vx ((moveEnemy ^^ n) e) = 1)
        \<and> x ((moveEnemy ^^ 31) e) = 531 \<and> Enemy.vx ((moveEnemy ^^ 31) e) = - 1"
    if h: "startX e = 500" "moveRange e = 70" "Enemy.vx e = 1" "x e = 500" "width e = 40"
  proof -
    have a: "\<forall>n \<le> 30. x ((moveEnemy ^^ n) e) = 500 + real n \<and> Enemy.vx ((moveEnemy ^^ n) e) = 1"
      using patrol_steps [OF h] h by simp
    have "(moveEnemy ^^ 31) e = moveEnemy ((moveEnemy ^^ 30) e)"
      by (simp add: numeral_eq_Suc)
    also have "\<dots> = moveEnemy (e\<lparr>x := 530\<rparr>)"
      using patrol_steps [OF h, of 30] by simp
    finally have "(moveEnemy ^^ 31) e = moveEnemy (e\<lparr>x := 530\<rparr>)" .
    then have "x ((moveEnemy ^^ 31) e) = 531 \<and> Enemy.vx ((moveEnemy ^^ 31) e) = - 1"
      using h by (simp add: moveEnemy_def Let_def)
    with a show ?thesis by blast
  qed
  then show ?thesis
    by (simp add: moveEnemy_fields moveEnemy_vx)
qed

theorem enemy_reversal_witness:
  "x ((moveEnemy ^^ 30) (hd (createEnemies canvas0))) = 530
   \<and> Enemy.vx ((moveEnemy ^^ 30) (hd (createEnemies canvas0))) = 1
   \<and> x ((moveEnemy ^^ 31) (hd (createEnemies canvas0))) = 531
   \<and> Enemy.vx ((moveEnemy ^^ 31) (hd (createEnemies canvas0))) = - 1"
proof -
  have h: "startX (hd (createEnemies canvas0)) = 500 \<and> moveRange (hd (createEnemies canvas0)) = 70
    \<and> Enemy.vx (hd (createEnemies canvas0)) = 1 \<and> x (hd (createEnemies canvas0)) = 500
    \<and> width (hd (createEnemies canvas0)) = 40"
    by (simp add: createEnemies_def)
  with enemy_reversal [of "hd (createEnemies canvas0)"]
  have "(\<forall>n \<le> 30. x ((moveEnemy ^^ n) (hd (createEnemies canvas0))) = 500 + real n
          \<and> Enemy.vx ((moveEnemy ^^ n) (hd (createEnemies canvas0))) = 1)
        \<and> x ((moveEnemy ^^ 31) (hd (createEnemies canvas0))) = 531
        \<and> Enemy.vx ((moveEnemy ^^ 31) (hd (createEnemies canvas0))) = - 1"
    by blast
  then have "x ((moveEnemy ^^ 30) (hd (createEnemies canvas0))) = 500 + real 30
          \<and> Enemy.vx ((moveEnemy ^^ 30) (hd (createEnemies canvas0))) = 1"
     and "x ((moveEnemy ^^ 31) (hd (createEnemies canvas0))) = 531
        \<and> Enemy.vx ((moveEnemy ^^ 31) (hd (createEnemies canvas0))) = - 1"
    by (blast, blast)
  then show ?thesis by simp
qed

subsection \<open>C4: jumping\<close>

lemma fallOut_isJumping: "isJumping p \<Longrightarrow> isJumping (fallOut cv p)"
  by (simp add: fallOut_def resetPlayer_fields)

text \<open>
  C4: with \<open>up\<close> held and the player grounded, the jump sets \<open>vy\<close> to \<open>JUMP_FORCE\<close> and
  \<open>isJumping\<close> to true; the player moves up by \<open>JUMP_FORCE\<close> in this tick, gravity then
  makes \<open>vy\<close> \<open>JUMP_FORCE + GRAVITY\<close>, no platform catches the rising player, and
  \<open>isJumping\<close> is true at the end of the tick. With the player airborne the jump changes
  nothing: \<open>vy\<close> only gains \<open>GRAVITY\<close>, and the tick with \<open>up\<close> held ends in the same
  state as the tick with \<open>up\<close> released.
\<close>

theorem jump_input:
  "(up ks \<and> \<not> isJumping (player s) \<longrightarrow>
      vy (jumpInput ks (horizontalInput ks (player s))) = JUMP_FORCE
      \<and> isJumping (jumpInput ks (horizontalInput ks (player s)))
      \<and> y (playerMovement ks (player s)) = y (player s) + JUMP_FORCE
      \<and> vy (playerMovement ks (player s)) = JUMP_FORCE + GRAVITY
      \<and> platformCollision (platforms s) (playerMovement ks (player s)) =
          (playerMovement ks (player s))
      \<and> isJumping (player (update cv ks s)))
   \<and> (isJumping (player s) \<longrightarrow>
        jumpInput ks (horizontalInput ks (player s)) = horizontalInput ks (player s)
        \<and> vy (playerMovement ks (player s)) = vy (player s) + GRAVITY
        \<and> update cv (ks\<lparr>up := True\<rparr>) s = update cv (ks\<lparr>up := False\<rparr>) s)"
proof -
  have grounded: "vy (jumpInput ks (horizontalInput ks (player s))) = JUMP_FORCE
      \<and> isJumping (jumpInput ks (horizontalInput ks (player s)))
      \<and> y (playerMovement ks (player s)) = y (player s) + JUMP_FORCE
      \<and> vy (playerMovement ks (player s)) = JUMP_FORCE + GRAVITY
      \<and> platformCollision (platforms s) (playerMovement ks (player s)) =
          (playerMovement ks (player s))
      \<and> isJumping (player (update cv ks s))"
    if h: "up ks" "\<not> isJumping (player s)"
  proof -
    have j: "vy (jumpInput ks (horizontalInput ks (player s))) = JUMP_FORCE"
      "isJumping (jumpInput ks (horizontalInput ks (player s)))"
      using h by (simp_all add: jumpInput_def horizontalInput_def)
    have m: "y (playerMovement ks (player s)) = y (player s) + JUMP_FORCE"
      "vy (playerMovement ks (player s)) = JUMP_FORCE + GRAVITY"
      "isJumping (playerMovement ks (player s))"
      using h by (simp_all add: playerMovement_def integrate_def jumpInput_def
          horizontalInput_def Let_def)
    have "vy (playerMovement ks (player s)) < 0"
      by (simp add: m JUMP_FORCE_def GRAVITY_def)
    then have l: "platformLoop (playerMovement ks (player s)) (platforms s) =
        (playerMovement ks (player s), False)"
      by (rule platformLoop_rising)
    have c: "platformCollision (platforms s) (playerMovement ks (player s)) =
        playerMovement ks (player s)"
      by (simp add: platformCollision_def l m)
    have "isJumping (player (update cv ks s))"
      by (simp add: player_update c fallOut_isJumping worldBoundaries_fields
          enemyPass_isJumping m)
    with j m c show ?thesis by simp
  qed
  have airborne: "jumpInput ks (horizontalInput ks (player s)) = horizontalInput ks (player s)
        \<and> vy (playerMovement ks (player s)) = vy (player s) + GRAVITY
        \<and> update cv (ks\<lparr>up := True\<rparr>) s = update cv (ks\<lparr>up := False\<rparr>) s"
    if h: "isJumping (player s)"
  proof -
    have "playerMovement (ks\<lparr>up := True\<rparr>) (player s) =
        playerMovement (ks\<lparr>up := False\<rparr>) (player s)"
      using h by (simp add: playerMovement_def jumpInput_def horizontalInput_def)
    then have "update cv (ks\<lparr>up := True\<rparr>) s = update cv (ks\<lparr>up := False\<rparr>) s"
      by (simp add: update_def)
    moreover have "jumpInput ks (horizontalInput ks (player s)) = horizontalInput ks (player s)"
      using h by (simp add: jumpInput_def horizontalInput_def)
    moreover have "vy (playerMovement ks (player s)) = vy (player s) + GRAVITY"
      using h by (simp add: playerMovement_def integrate_def jumpInput_def
          horizontalInput_def Let_def)
    ultimately show ?thesis by simp
  qed
  from grounded airborne show ?thesis by blast
qed

theorem jump_input_witness:
  "vy (jumpInput jumpKeys (horizontalInput jumpKeys (player landedState))) = - 12
   \<and> isJumping (player (update canvas0 jumpKeys landedState))
   \<and> update canvas0 (noKeys\<lparr>up := True\<rparr>) (init canvas0) =
      update canvas0 (noKeys\<lparr>up := False\<rparr>) (init canvas0)"
proof -
  have a: "up jumpKeys \<and> \<not> isJumping (player landedState)"
    by (simp add: jumpKeys_def landedState_eq)
  have b: "isJumping (player (init canvas0))"
    by (simp add: init_def initialPlayer_def)
  from a jump_input [of jumpKeys landedState canvas0]
  have "vy (jumpInput jumpKeys (horizontalInput jumpKeys (player landedState))) = JUMP_FORCE"
    and "isJumping (player (update canvas0 jumpKeys landedState))"
    by blast+
  moreover from b jump_input [of noKeys "init canvas0" canvas0]
  have "update canvas0 (noKeys\<lparr>up := True\<rparr>) (init canvas0) =
      update canvas0 (noKeys\<lparr>up := False\<rparr>) (init canvas0)"
    by blast
  ultimately show ?thesis
    by (simp add: JUMP_FORCE_def)
qed

subsection \<open>C5: the camera\<close>

lemma camera_wider_than_world:
  assumes "WORLD_WIDTH < Canvas.width cv"
  shows "Camera.x (camera (update cv ks s)) = WORLD_WIDTH - Canvas.width cv"
  using assms by (simp add: camera_update cameraUpdate_x min_def max_def)

text \<open>
  C5 as stated fails: nothing in the program keeps the canvas narrower than the world.
  On a canvas 3456 wide the first tick from the initial state ends with the camera
  offset -456, which is below 0 and is not the player's
  \<open>x - viewport_width / 2 + width / 2\<close> clamped to \<open>[0, WORLD_WIDTH - viewport_width]\<close>.
\<close>

theorem camera_clamp_counterexample:
  "Camera.x (camera (update wideCanvas noKeys (init wideCanvas))) = - 456
   \<and> \<not> 0 \<le> Camera.x (camera (update wideCanvas noKeys (init wideCanvas)))
   \<and> Camera.x (camera (update wideCanvas noKeys (init wideCanvas))) \<noteq>
       clamp 0 (WORLD_WIDTH - Canvas.width wideCanvas)
         (x (player (update wideCanvas noKeys (init wideCanvas))) - Canvas.width wideCanvas / 2
            + width (player (update wideCanvas noKeys (init wideCanvas))) / 2)"
proof -
  have "WORLD_WIDTH < Canvas.width wideCanvas"
    by (simp add: WORLD_WIDTH_def wideCanvas_def)
  then have "Camera.x (camera (update wideCanvas noKeys (init wideCanvas))) =
      WORLD_WIDTH - Canvas.width wideCanvas"
    by (rule camera_wider_than_world)
  then have c: "Camera.x (camera (update wideCanvas noKeys (init wideCanvas))) = - 456"
    by (simp add: WORLD_WIDTH_def wideCanvas_def)
  have "0 \<le> clamp 0 hi v" for hi v
    by (simp add: clamp_def)
  then have "- 456 \<noteq> clamp 0 hi v" for hi v
    by (metis neg_numeral_le_zero not_numeral_le_zero order.antisym neg_equal_0_iff_equal
        zero_neq_numeral)
  with c show ?thesis
    by simp
qed

text \<open>
  C5, amended: at the end of every tick the camera offset is the smaller of
  \<open>WORLD_WIDTH - viewport_width\<close> and the larger of 0 and the player's
  \<open>x - viewport_width / 2 + width / 2\<close>. When the viewport is no wider than the world,
  that is the value clamped to \<open>[0, WORLD_WIDTH - viewport_width]\<close>, and it lies in that
  interval.
\<close>

theorem camera_clamp:
  "Camera.x (camera (update cv ks s)) =
     min (WORLD_WIDTH - Canvas.width cv)
       (max 0 (x (player (update cv ks s)) - Canvas.width cv / 2
                 + width (player (update cv ks s)) / 2))
   \<and> (Canvas.width cv \<le> WORLD_WIDTH \<longrightarrow>
        Camera.x (camera (update cv ks s)) =
          clamp 0 (WORLD_WIDTH - Canvas.width cv)
            (x (player (update cv ks s)) - Canvas.width cv / 2
               + width (player (update cv ks s)) / 2)
        \<and> 0 \<le> Camera.x (camera (update cv ks s))
        \<and> Camera.x (camera (update cv ks s)) \<le> WORLD_WIDTH - Canvas.width cv)"
  by (simp add: camera_update cameraUpdate_x clamp_def min_def max_def)

theorem camera_clamp_witness:
  "Canvas.width canvas0 \<le> WORLD_WIDTH
   \<and> 0 \<le> Camera.x (camera (update canvas0 noKeys (init canvas0)))
   \<and> Camera.x (camera (update canvas0 noKeys (init canvas0))) \<le> 2000"
proof -
  have h: "Canvas.width canvas0 \<le> WORLD_WIDTH"
    by (simp add: canvas0_def WORLD_WIDTH_def)
  have "WORLD_WIDTH - Canvas.width canvas0 = 2000"
    by (simp add: canvas0_def WORLD_WIDTH_def)
  with h camera_clamp [of canvas0 noKeys "init canvas0"] show ?thesis
    by simp
qed

subsection \<open>C6: the left boundary\<close>

lemma fallOut_x_nonneg: "0 \<le> x p \<Longrightarrow> 0 \<le> x (fallOut cv p)"
  by (simp add: fallOut_def resetPlayer_def)

lemma worldBoundaries_x_nonneg: "0 \<le> x (worldBoundaries p)"
  by (simp add: worldBoundaries_def)

lemma update_x_nonneg: "0 \<le> x (player (update cv ks s))"
  by (simp add: player_update fallOut_x_nonneg worldBoundaries_x_nonneg)

text \<open>
  C6: in every state reached from the initial one, whatever the keys, and at the end of
  a tick from any state at all, the player's \<open>x\<close> is at least 0.
\<close>

theorem left_boundary:
  "0 \<le> x (player (run cv (init cv) kss)) \<and> 0 \<le> x (player (update cv ks s))"
proof -
  have "0 \<le> x (player s') \<Longrightarrow> 0 \<le> x (player (run cv s' kss))" for s'
    by (induction kss arbitrary: s') (simp_all add: update_x_nonneg)
  moreover have "0 \<le> x (player (init cv))"
    by (simp add: init_def initialPlayer_def)
  ultimately show ?thesis
    using update_x_nonneg by blast
qed

subsection \<open>C7: the patrol of the enemies\<close>

lemma patrolInv_moveEnemy: "patrolInv e \<Longrightarrow> patrolInv (moveEnemy e)"
  unfolding patrolInv_def moveEnemy_fields moveEnemy_vx
  by (auto simp: abs_if split: if_splits)

lemma patrolInv_update:
  assumes "\<forall>e \<in> set (enemies s). patrolInv e"
  shows "\<forall>e \<in> set (enemies (update cv ks s)). patrolInv e"
  using assms enemyPass_subset [of cv _ "enemies s"]
  by (auto simp: enemies_update dest!: subsetD intro: patrolInv_moveEnemy)

lemma patrolInv_run:
  "\<forall>e \<in> set (enemies s). patrolInv e \<Longrightarrow> \<forall>e \<in> set (enemies (run cv s kss)). patrolInv e"
proof (induction kss arbitrary: s)
  case Nil
  then show ?case by simp
next
  case (Cons ks kss)
  from Cons.IH [OF patrolInv_update [OF Cons.prems]] show ?case by simp
qed

lemma patrolInv_init: "\<forall>e \<in> set (enemies (init cv)). patrolInv e"
  by (simp add: init_def createEnemies_def patrolInv_def)

text \<open>
  C7: in every state reached from the initial one, every enemy still in the collection
  has its position in \<open>[startX - |vx|, startX + moveRange + |vx|]\<close>.
\<close>

theorem enemy_patrol_bound:
  "\<forall>e \<in> set (enemies (run cv (init cv) kss)).
     startX e - \<bar>Enemy.vx e\<bar> \<le> x e \<and> x e \<le> startX e + moveRange e + \<bar>Enemy.vx e\<bar>"
proof
  fix e
  assume "e \<in> set (enemies (run cv (init cv) kss))"
  with patrolInv_run [OF patrolInv_init] have "patrolInv e"
    by blast
  then show "startX e - \<bar>Enemy.vx e\<bar> \<le> x e \<and> x e \<le> startX e + moveRange e + \<bar>Enemy.vx e\<bar>"
    unfolding patrolInv_def by linarith
qed

theorem enemy_patrol_bound_witness:
  "hd (enemies landedState) \<in> set (enemies (run canvas0 (init canvas0) (replicate 21 noKeys)))
   \<and> 499 \<le> x (hd (enemies landedState)) \<and> x (hd (enemies landedState)) \<le> 571"
proof -
  have m: "hd (enemies landedState) \<in> set (enemies (run canvas0 (init canvas0) (replicate 21 noKeys)))"
    unfolding landedState_def [symmetric] by (simp add: landedState_eq)
  have "startX (hd (enemies landedState)) = 500" "moveRange (hd (enemies landedState)) = 70"
    "Enemy.vx (hd (enemies landedState)) = 1"
    by (simp_all add: landedState_eq)
  with m enemy_patrol_bound [of canvas0 "replicate 21 noKeys"] show ?thesis
    by fastforce
qed

subsection \<open>C8: reset after a fall or a hit\<close>

text \<open>
  C8: when the player's \<open>y\<close>, after the move, the platforms and the enemies, exceeds
  the canvas height, the tick ends with the player reset by \<open>resetPlayer\<close>: \<open>x = 100\<close>,
  \<open>y = canvas.height - 100\<close>, \<open>vy = 0\<close>, \<open>isJumping = true\<close>. An enemy that overlaps the
  player without being stomped resets it by the same \<open>resetPlayer\<close>.
\<close>

theorem reset_on_fall_and_hit:
  "(Canvas.height cv <
      y (fst (enemyLoop cv (length (enemies s))
                (platformCollision (platforms s) (playerMovement ks (player s)))
                (enemies s))) \<longrightarrow>
      player (update cv ks s) =
        resetPlayer cv (worldBoundaries (fst (enemyLoop cv (length (enemies s))
          (platformCollision (platforms s) (playerMovement ks (player s))) (enemies s))))
      \<and> x (player (update cv ks s)) = 100
      \<and> y (player (update cv ks s)) = Canvas.height cv - 100
      \<and> vy (player (update cv ks s)) = 0
      \<and> isJumping (player (update cv ks s)))
   \<and> (collides p (moveEnemy e) \<and> \<not> stomps p (moveEnemy e) \<longrightarrow>
        fst (enemyStep cv p e) = resetPlayer cv p)"
  by (simp add: player_update enemyLoop_enemyPass fallOut_def worldBoundaries_fields
      resetPlayer_fields enemyStep_cases)

lemma fallen_loop:
  "enemyPass canvas0
     (platformCollision (platforms fallenState) (playerMovement noKeys (player fallenState)))
     (enemies fallenState) =
   ((initialPlayer canvas0)\<lparr>x := 840, y := 650, vy := 1 / 2\<rparr>,
     map moveEnemy (createEnemies canvas0))"
proof -
  have m: "playerMovement noKeys (player fallenState) =
      (initialPlayer canvas0)\<lparr>x := 840, y := 650, vy := 1 / 2\<rparr>"
    by (simp add: fallenState_def playerMovement_def integrate_def jumpInput_def
        horizontalInput_def noKeys_def initialPlayer_def GRAVITY_def Let_def)
  have "platformLoop ((initialPlayer canvas0)\<lparr>x := 840, y := 650, vy := 1 / 2\<rparr>)
          (createPlatforms canvas0) =
        ((initialPlayer canvas0)\<lparr>x := 840, y := 650, vy := 1 / 2\<rparr>, False)"
    by (rule platformLoop_none)
      (simp add: createPlatforms_def lands_def initialPlayer_def canvas0_def WORLD_WIDTH_def)
  moreover have pl: "platforms fallenState = createPlatforms canvas0"
    and en: "enemies fallenState = createEnemies canvas0"
    by (simp_all add: fallenState_def init_def)
  ultimately have c: "platformCollision (platforms fallenState)
      (playerMovement noKeys (player fallenState)) =
      (initialPlayer canvas0)\<lparr>x := 840, y := 650, vy := 1 / 2\<rparr>"
    unfolding m pl platformCollision_def by (simp add: initialPlayer_def)
  have "enemyPass canvas0 ((initialPlayer canvas0)\<lparr>x := 840, y := 650, vy := 1 / 2\<rparr>)
      (createEnemies canvas0) =
      ((initialPlayer canvas0)\<lparr>x := 840, y := 650, vy := 1 / 2\<rparr>,
       map moveEnemy (createEnemies canvas0))"
    by (rule enemyPass_no_collision)
      (simp add: createEnemies_def collides_def moveEnemy_def initialPlayer_def canvas0_def Let_def)
  then show ?thesis
    unfolding c en .
qed

theorem reset_on_fall_and_hit_witness:
  "x (player (update canvas0 noKeys fallenState)) = 100
   \<and> y (player (update canvas0 noKeys fallenState)) = 500
   \<and> fst (enemyStep canvas0 ((initialPlayer canvas0)\<lparr>x := 500, y := 310\<rparr>)
        (hd (createEnemies canvas0))) =
      resetPlayer canvas0 ((initialPlayer canvas0)\<lparr>x := 500, y := 310\<rparr>)"
proof -
  have a: "Canvas.height canvas0 <
      y (fst (enemyLoop canvas0 (length (enemies fallenState))
                (platformCollision (platforms fallenState)
                  (playerMovement noKeys (player fallenState))) (enemies fallenState)))"
    by (simp add: enemyLoop_enemyPass fallen_loop) (simp add: canvas0_def)
  have b: "collides ((initialPlayer canvas0)\<lparr>x := 500, y := 310\<rparr>)
             (moveEnemy (hd (createEnemies canvas0)))
           \<and> \<not> stomps ((initialPlayer canvas0)\<lparr>x := 500, y := 310\<rparr>)
             (moveEnemy (hd (createEnemies canvas0)))"
    by (simp add: collides_def stomps_def moveEnemy_def createEnemies_def initialPlayer_def
        canvas0_def Let_def)
  have h: "Canvas.height canvas0 - 100 = 500"
    by (simp add: canvas0_def)
  from a b h
    reset_on_fall_and_hit [of canvas0 fallenState noKeys
      "(initialPlayer canvas0)\<lparr>x := 500, y := 310\<rparr>" "hd (createEnemies canvas0)"]
  show ?thesis by (simp add: resetPlayer_fields)
qed

subsection \<open>C10: standing alternates between grounded and airborne\<close>

text \<open>
  C10: from a player standing on a platform, grounded with \<open>vy = 0\<close> and bottom edge
  equal to the platform's top, a tick with no key held leaves the position unchanged
  and ends with \<open>vy = GRAVITY\<close> and \<open>isJumping = true\<close>; the next tick grounds the player
  again at the same position with \<open>vy = 0\<close>; and so on: after \<open>n\<close> ticks at rest
  \<open>isJumping\<close> is true exactly when \<open>n\<close> is odd, and the position is the same.
\<close>

theorem rest_alternates:
  assumes "resting cv pl False s"
  shows "player (update cv noKeys s) =
           (player s)\<lparr>Player.vx := 0, vy := GRAVITY, isJumping := True\<rparr>
         \<and> x (player (update cv noKeys (update cv noKeys s))) = x (player s)
         \<and> y (player (update cv noKeys (update cv noKeys s))) = y (player s)
         \<and> vy (player (update cv noKeys (update cv noKeys s))) = 0
         \<and> \<not> isJumping (player (update cv noKeys (update cv noKeys s)))
         \<and> (\<forall>n. isJumping (player (run cv s (replicate n noKeys))) = odd n
                \<and> x (player (run cv s (replicate n noKeys))) = x (player s)
                \<and> y (player (run cv s (replicate n noKeys))) = y (player s))"
proof -
  from resting_tick [OF assms] have r: "resting cv pl True (update cv noKeys s)"
    by simp
  have "isJumping (player (run cv s (replicate n noKeys))) = odd n
      \<and> x (player (run cv s (replicate n noKeys))) = x (player s)
      \<and> y (player (run cv s (replicate n noKeys))) = y (player s)" for n
    using resting_run [OF assms, of n] by (simp add: resting_def)
  then show ?thesis
    by (simp add: resting_ground_tick(1) [OF assms] resting_air_tick(1) [OF r])
qed

theorem rest_alternates_witness:
  "vy (player (update canvas0 noKeys landedState)) = 1 / 2
   \<and> isJumping (player (update canvas0 noKeys landedState))
   \<and> \<not> isJumping (player (update canvas0 noKeys (update canvas0 noKeys landedState)))
   \<and> isJumping (player (run canvas0 landedState (replicate 3 noKeys)))"
proof -
  have "resting canvas0 (hd (createPlatforms canvas0)) False landedState"
    by (simp add: resting_def landedState_eq)
      (simp add: createPlatforms_def canvas0_def GRAVITY_def WORLD_WIDTH_def)
  from rest_alternates [OF this] show ?thesis
    by (simp add: GRAVITY_def)
qed

end
